theory Spec2Isabelle
  imports Complex_Main "HOL-Library.AList"
begin

section \<open>Data model of main.py\<close>

text \<open>
  The models of main.py. The fields of \<open>Content\<close> and \<open>Schedule\<close> carry a prefix,
  since both classes have an \<open>id\<close> and a \<open>name\<close>. A \<open>datetime\<close> is a number of
  seconds, Python's \<open>int\<close> is \<open>int\<close>.
\<close>

datatype ContentType = IMAGE | VIDEO | WEB

record Content =
  c_id :: string
  c_name :: string
  c_type :: ContentType
  c_path :: string
  c_duration :: int
  c_created_at :: int
  c_file_hash :: "string option"

record Schedule =
  s_id :: string
  s_name :: string
  s_content_ids :: "string list"
  s_start_time :: "string option"
  s_end_time :: "string option"
  s_enabled :: bool
  s_priority :: int

datatype py_error = IndexError | ZeroDivisionError | ValueError

text \<open>
  \<open>ContentScheduler\<close>: the fields that \<open>__init__\<close> sets, without the APScheduler
  object and the task handle, which no method reads. A Python dict keeps its keys in
  insertion order, and \<open>list(self.content_db.values())\<close> reads that order, so both
  dicts are association lists: \<open>d[k] = v\<close> is \<open>AList.update\<close> (in place for a known
  key, at the end for a new one) and \<open>del d[k]\<close> is \<open>AList.delete\<close>.
\<close>

record ContentScheduler =
  current_playlist :: "Content list"
  current_index :: int
  content_db :: "(string \<times> Content) list"
  schedules :: "(string \<times> Schedule) list"

definition init_scheduler :: ContentScheduler where
  "init_scheduler =
     \<lparr>current_playlist = [], current_index = 0, content_db = [], schedules = []\<rparr>"

subsection \<open>The catalog operations\<close>

definition add_content :: "Content \<Rightarrow> ContentScheduler \<Rightarrow> ContentScheduler" where
  "add_content content s = s\<lparr>content_db := AList.update (c_id content) content (content_db s)\<rparr>"

definition remove_content :: "string \<Rightarrow> ContentScheduler \<Rightarrow> ContentScheduler" where
  "remove_content content_id s =
     (if content_id \<in> fst ` set (content_db s)
      then s\<lparr>content_db := AList.delete content_id (content_db s)\<rparr>
      else s)"

text \<open>
  \<open>update_playlist\<close>: the comprehension keeps, in the order of \<open>content_ids\<close>, the
  object stored under each id that is a key of \<open>content_db\<close>.
\<close>

definition update_playlist :: "string list \<Rightarrow> ContentScheduler \<Rightarrow> ContentScheduler" where
  "update_playlist content_ids s =
     s\<lparr>current_playlist :=
         List.map_filter (\<lambda>cid. map_of (content_db s) cid) content_ids,
       current_index := 0\<rparr>"

subsection \<open>The playback loop\<close>

text \<open>
  Python's \<open>xs[i]\<close>: a negative index counts from the end, and an index outside the
  list raises \<open>IndexError\<close>.
\<close>

definition py_getitem :: "'a list \<Rightarrow> int \<Rightarrow> py_error + 'a" where
  "py_getitem xs i =
     (if 0 \<le> i \<and> i < int (length xs) then Inr (xs ! nat i)
      else if i < 0 \<and> - int (length xs) \<le> i then Inr (xs ! nat (int (length xs) + i))
      else Inl IndexError)"

text \<open>
  \<open>play_next\<close> suspends at each \<open>await\<close>, so it is modelled in the pieces that run
  without suspension. \<open>play_next_select\<close> is lines 193 to 203: it loads the default
  playlist when the current one is empty and reads the entry at the cursor;
  \<open>Inr None\<close> is the branch that sleeps five seconds and starts \<open>play_next\<close> again.
  \<open>play_next_advance\<close> is line 209, which runs after \<open>play_content\<close> has been awaited;
  Python's \<open>%\<close> raises \<open>ZeroDivisionError\<close> for a zero divisor and, for a positive one,
  agrees with \<open>mod\<close> on \<open>int\<close>.
\<close>

definition load_default :: "ContentScheduler \<Rightarrow> ContentScheduler" where
  "load_default s =
     (if current_playlist s = [] then s\<lparr>current_playlist := map snd (content_db s)\<rparr> else s)"

definition play_next_select :: "ContentScheduler \<Rightarrow> ContentScheduler \<times> (py_error + Content option)" where
  "play_next_select s =
     (let s1 = load_default s in
      if current_playlist s1 = [] then (s1, Inr None)
      else (case py_getitem (current_playlist s1) (current_index s1) of
              Inl e \<Rightarrow> (s1, Inl e)
            | Inr content \<Rightarrow> (s1, Inr (Some content))))"

definition play_next_advance :: "ContentScheduler \<Rightarrow> py_error + ContentScheduler" where
  "play_next_advance s =
     (if length (current_playlist s) = 0 then Inl ZeroDivisionError
      else Inr (s\<lparr>current_index := (current_index s + 1) mod int (length (current_playlist s))\<rparr>))"

text \<open>
  The sequence \<open>play_next\<close> reads from: the current playlist, or every object of
  \<open>content_db\<close> when the playlist is empty (lines 193 to 195).
\<close>

definition play_next_sequence :: "ContentScheduler \<Rightarrow> Content list" where
  "play_next_sequence s = current_playlist (load_default s)"

subsection \<open>The player manager\<close>

text \<open>
  The VLC player and the browser are outside the program. A \<open>Renderer\<close> says which of
  their calls raise during one \<open>play_content\<close>, and what \<open>is_playing()\<close>,
  \<open>audio_get_volume()\<close> and \<open>play()\<close> return; \<open>play_content\<close> discards the value of
  \<open>play()\<close>. The effects of the calls are recorded in a trace, a \<open>Sleep\<close> in seconds.
\<close>

datatype vlc_call =
  IsPlaying | AudioGetVolume | AudioSetVolume | MediaNew | AddOption | SetMedia | Play
  | ShowWebContent

record Renderer =
  raises :: "vlc_call \<Rightarrow> bool"
  is_playing :: bool
  audio_get_volume :: int
  play_returns :: int

datatype effect =
  SetVolume int | Sleep rat | LoadMedia string | InputRepeat | StartPlay | Kiosk string
  | LogError | CreateTask

record VLCPlayerManager =
  current_media :: "string option"
  is_transitioning :: bool

definition init_player :: VLCPlayerManager where
  "init_player = \<lparr>current_media = None, is_transitioning = False\<rparr>"

type_synonym pm_run = "VLCPlayerManager \<times> effect list"

text \<open>
  One external call: it raises, which ends the \<open>try\<close> block (the flag \<open>True\<close>), or it
  has its effects. \<open>and_then\<close> is the sequencing inside the \<open>try\<close> block.
\<close>

definition vlc :: "Renderer \<Rightarrow> vlc_call \<Rightarrow> effect list \<Rightarrow> pm_run \<Rightarrow> pm_run \<times> bool" where
  "vlc r call effs st =
     (if raises r call then (st, True) else ((fst st, snd st @ effs), False))"

definition and_then :: "pm_run \<times> bool \<Rightarrow> (pm_run \<Rightarrow> pm_run \<times> bool) \<Rightarrow> pm_run \<times> bool" where
  "and_then m f = (if snd m then m else f (fst m))"

text \<open>
  \<open>int(current_volume * i / steps)\<close>: the quotient of two integers as a float, cut
  towards zero. The volume is a C int and \<open>i \<le> 20\<close>, so the product is far below
  \<open>2 ^ 53\<close> and the float quotient has the integer part of the exact one.
\<close>

definition py_int_truediv :: "int \<Rightarrow> int \<Rightarrow> int" where
  "py_int_truediv a b = (if a < 0 then - ((- a) div b) else a div b)"

text \<open>The levels set by the loop of \<open>_fade_out\<close>, \<open>i\<close> running over \<open>range(20, 0, -1)\<close>.\<close>

definition fade_out_levels :: "int \<Rightarrow> int list" where
  "fade_out_levels current_volume = map (\<lambda>i. py_int_truediv (current_volume * i) 20) (rev [1..20])"

text \<open>The levels set by the loop of \<open>_fade_in\<close>, \<open>i\<close> running over \<open>range(1, 21)\<close>.\<close>

definition fade_in_levels :: "int list" where
  "fade_in_levels = map (\<lambda>i. py_int_truediv (100 * i) 20) [1..20]"

fun set_levels :: "Renderer \<Rightarrow> rat \<Rightarrow> int list \<Rightarrow> pm_run \<Rightarrow> pm_run \<times> bool" where
  "set_levels r pause [] st = (st, False)"
| "set_levels r pause (l # ls) st =
     and_then (vlc r AudioSetVolume [SetVolume l, Sleep pause] st) (set_levels r pause ls)"

definition fade_out :: "Renderer \<Rightarrow> rat \<Rightarrow> pm_run \<Rightarrow> pm_run \<times> bool" where
  "fade_out r duration st =
     and_then (vlc r AudioGetVolume [] st)
       (set_levels r (duration / 20) (fade_out_levels (audio_get_volume r)))"

definition fade_in :: "Renderer \<Rightarrow> rat \<Rightarrow> pm_run \<Rightarrow> pm_run \<times> bool" where
  "fade_in r duration st = set_levels r (duration / 20) fade_in_levels st"

text \<open>The level the player is left at when \<open>_fade_out\<close> has run to its end.\<close>

definition fade_out_final :: "int \<Rightarrow> int" where
  "fade_out_final current_volume = last (fade_out_levels current_volume)"

definition load_media :: "Renderer \<Rightarrow> Content \<Rightarrow> pm_run \<Rightarrow> pm_run \<times> bool" where
  "load_media r content st =
     (if c_type content = VIDEO
      then and_then (vlc r MediaNew [LoadMedia (c_path content)] st) (vlc r AddOption [InputRepeat])
      else vlc r MediaNew [LoadMedia (c_path content)] st)"

text \<open>
  The \<open>try\<close> block of \<open>play_content\<close>. The \<open>WEB\<close> branch returns after
  \<open>_show_web_content\<close>, before the line that clears \<open>is_transitioning\<close>.
\<close>

definition play_content_try :: "Renderer \<Rightarrow> Content \<Rightarrow> pm_run \<Rightarrow> pm_run \<times> bool" where
  "play_content_try r content st0 =
     and_then (vlc r IsPlaying [] st0) (\<lambda>st1.
     and_then (if is_playing r then fade_out r (1 / 2) st1 else (st1, False)) (\<lambda>st2.
       if c_type content = WEB then vlc r ShowWebContent [Kiosk (c_path content)] st2
       else
         and_then (load_media r content st2) (\<lambda>st3.
         and_then (vlc r SetMedia [] st3) (\<lambda>st4.
         and_then (vlc r Play [StartPlay]
                     ((fst st4)\<lparr>current_media := Some (c_path content)\<rparr>, snd st4)) (\<lambda>st5.
         and_then (fade_in r (1 / 2) st5) (\<lambda>st6.
           (((fst st6)\<lparr>is_transitioning := False\<rparr>, snd st6), False)))))))"

text \<open>
  \<open>play_content\<close>: \<open>except Exception\<close> logs and clears the flag, so the coroutine
  returns in every case.
\<close>

definition play_content :: "Renderer \<Rightarrow> Content \<Rightarrow> VLCPlayerManager \<Rightarrow> pm_run" where
  "play_content r content pm =
     (case play_content_try r content (pm\<lparr>is_transitioning := True\<rparr>, []) of
        (st, raised) \<Rightarrow>
          if raised then ((fst st)\<lparr>is_transitioning := False\<rparr>, snd st @ [LogError]) else st)"

subsection \<open>One run of \<open>play_next\<close>, and the chain of tasks\<close>

text \<open>
  \<open>play_next\<close> with no other handler running between its pieces: the new state, the
  trace of effects, and the exception that ends the task, if any. \<open>CreateTask\<close> is
  \<open>asyncio.create_task(self.play_next())\<close>.
\<close>

type_synonym driver_state = "ContentScheduler \<times> VLCPlayerManager"

definition play_next :: "Renderer \<Rightarrow> driver_state \<Rightarrow> driver_state \<times> effect list \<times> py_error option" where
  "play_next r st =
     (case play_next_select (fst st) of
        (s1, Inl e) \<Rightarrow> ((s1, snd st), [], Some e)
      | (s1, Inr None) \<Rightarrow> ((s1, snd st), [Sleep 5, CreateTask], None)
      | (s1, Inr (Some content)) \<Rightarrow>
          (case play_content r content (snd st) of
             (pm, tr) \<Rightarrow>
               (case play_next_advance s1 of
                  Inl e \<Rightarrow> ((s1, pm), tr, Some e)
                | Inr s2 \<Rightarrow>
                    ((s2, pm), tr @ [Sleep (of_int (c_duration content)), CreateTask], None))))"

text \<open>The first \<open>n\<close> tasks of the chain, each started by the one before it.\<close>

fun drive :: "nat \<Rightarrow> Renderer \<Rightarrow> driver_state \<Rightarrow> driver_state \<times> effect list \<times> py_error option" where
  "drive 0 r st = (st, [], None)"
| "drive (Suc n) r st =
     (case play_next r st of
        (st1, tr, Some e) \<Rightarrow> (st1, tr, Some e)
      | (st1, tr, None) \<Rightarrow>
          (case drive n r st1 of (st2, tr2, res) \<Rightarrow> (st2, tr @ tr2, res)))"

subsection \<open>The observers\<close>

text \<open>
  \<open>websocket_clients\<close> is a global list. \<open>websocket_endpoint\<close> appends a client when it
  connects (line 362) and removes it when it disconnects (line 369), and it runs whenever
  another coroutine is suspended. \<open>list.remove\<close> takes out the first equal element; in the
  endpoint a removal of a client that is no longer there ends that handler and leaves the
  list as it is.
\<close>

datatype 'c delivery = Delivered 'c | Dropped 'c

datatype 'c handler = Connect 'c | Disconnect 'c

fun handler_step :: "'c list \<Rightarrow> 'c handler \<Rightarrow> 'c list" where
  "handler_step clients (Connect c) = clients @ [c]"
| "handler_step clients (Disconnect c) = remove1 c clients"

text \<open>The body of the first loop of \<open>notify_clients\<close>, once the send has returned or raised.\<close>

definition sent_to :: "('c \<Rightarrow> bool) \<Rightarrow> 'c \<Rightarrow> 'c delivery list \<times> 'c list \<Rightarrow> 'c delivery list \<times> 'c list" where
  "sent_to send_fails client acc =
     (if send_fails client then (fst acc @ [Dropped client], snd acc @ [client])
      else (fst acc @ [Delivered client], snd acc))"

text \<open>
  The first loop of \<open>notify_clients\<close>. A Python \<open>for\<close> over a list keeps an index \<open>i\<close> and
  reads the list anew at every step, stopping when \<open>i\<close> has reached its length. Each step
  awaits \<open>send_json\<close>; \<open>send_fails\<close> says for which clients it raises, and \<open>during\<close> lists,
  await by await, what the connection handlers do to the list while the loop is suspended
  there. The result is the list as the loop leaves it, the deliveries tried, and the clients
  collected in \<open>disconnected\<close>.
\<close>

function send_loop ::
  "('c \<Rightarrow> bool) \<Rightarrow> 'c handler list list \<Rightarrow> nat \<Rightarrow> 'c list \<Rightarrow> 'c delivery list \<times> 'c list
     \<Rightarrow> 'c list \<times> 'c delivery list \<times> 'c list" where
  "send_loop send_fails during i clients acc =
     (if length clients \<le> i then (clients, acc)
      else (case during of
              [] \<Rightarrow> send_loop send_fails [] (Suc i) clients (sent_to send_fails (clients ! i) acc)
            | hs # later \<Rightarrow>
                send_loop send_fails later (Suc i) (foldl handler_step clients hs)
                  (sent_to send_fails (clients ! i) acc)))"
  by pat_completeness auto
termination
  apply (relation "measure (\<lambda>(f, during, i, clients, acc).
           sum_list (map length during) + length clients - i)")
    apply simp
   apply simp
  subgoal premises p for send_fails during i clients acc hs later
  proof -
    have "length (foldl handler_step cs hs) \<le> length cs + length hs" for cs
    proof (induction hs arbitrary: cs)
      case Nil
      show ?case by simp
    next
      case (Cons h hs)
      have "length (handler_step cs h) \<le> Suc (length cs)"
        by (cases h) (simp_all add: length_remove1 le_SucI)
      with Cons[of "handler_step cs h"] show ?case by simp
    qed
    from this[of clients] p show ?thesis by simp
  qed
  done

declare send_loop.simps [simp del]

text \<open>The second loop has no \<open>await\<close>; here a missing client raises \<open>ValueError\<close>.\<close>

definition py_remove :: "'c \<Rightarrow> 'c list \<Rightarrow> py_error + 'c list" where
  "py_remove x xs = (if x \<in> set xs then Inr (remove1 x xs) else Inl ValueError)"

fun remove_loop :: "'c list \<Rightarrow> 'c list \<Rightarrow> py_error + 'c list" where
  "remove_loop [] websocket_clients = Inr websocket_clients"
| "remove_loop (client # disconnected) websocket_clients =
     (case py_remove client websocket_clients of
        Inl e \<Rightarrow> Inl e
      | Inr rest \<Rightarrow> remove_loop disconnected rest)"

definition notify_clients ::
  "('c \<Rightarrow> bool) \<Rightarrow> 'c handler list list \<Rightarrow> 'c list \<Rightarrow> 'c delivery list \<times> (py_error + 'c list)" where
  "notify_clients send_fails during websocket_clients =
     (case send_loop send_fails during 0 websocket_clients ([], []) of
        (clients, sent, disconnected) \<Rightarrow> (sent, remove_loop disconnected clients))"

subsection \<open>The loop among the request handlers\<close>

text \<open>
  The event loop runs one piece of code at a time and changes over at an \<open>await\<close>. The
  chain of \<open>play_next\<close> tasks is at one of these places: about to start
  (\<open>Ready\<close>), in the five second sleep of line 198 (\<open>Backoff\<close>), awaiting
  \<open>play_content\<close> on line 206 (\<open>Transition\<close>), in the sleep of line 212
  (\<open>Showing\<close>), or ended by an exception (\<open>Crashed\<close>). Time is counted in seconds:
  a sleep sets \<open>wake_at\<close>, and the task goes on only once the clock has reached it. How
  long \<open>play_content\<close> takes is left open.
\<close>

datatype loop_pc = Ready | Backoff | Transition Content | Showing Content | Crashed py_error

record system =
  sched :: ContentScheduler
  pc :: loop_pc
  clock :: rat
  wake_at :: rat

datatype event =
  AddContent Content | RemoveContent string | UpdatePlaylist "string list"
  | Elapse rat | Resume

definition init_system :: system where
  "init_system = \<lparr>sched = init_scheduler, pc = Ready, clock = 0, wake_at = 0\<rparr>"

definition resume :: "system \<Rightarrow> system" where
  "resume y =
     (case pc y of
        Ready \<Rightarrow>
          (case play_next_select (sched y) of
             (s1, Inl e) \<Rightarrow> y\<lparr>sched := s1, pc := Crashed e\<rparr>
           | (s1, Inr None) \<Rightarrow> y\<lparr>sched := s1, pc := Backoff, wake_at := clock y + 5\<rparr>
           | (s1, Inr (Some content)) \<Rightarrow> y\<lparr>sched := s1, pc := Transition content\<rparr>)
      | Backoff \<Rightarrow> (if wake_at y \<le> clock y then y\<lparr>pc := Ready\<rparr> else y)
      | Transition content \<Rightarrow>
          (case play_next_advance (sched y) of
             Inl e \<Rightarrow> y\<lparr>pc := Crashed e\<rparr>
           | Inr s2 \<Rightarrow>
               y\<lparr>sched := s2, pc := Showing content,
                 wake_at := clock y + of_int (c_duration content)\<rparr>)
      | Showing content \<Rightarrow> (if wake_at y \<le> clock y then y\<lparr>pc := Ready\<rparr> else y)
      | Crashed e \<Rightarrow> y)"

fun step :: "system \<Rightarrow> event \<Rightarrow> system" where
  "step y (AddContent content) = y\<lparr>sched := add_content content (sched y)\<rparr>"
| "step y (RemoveContent content_id) = y\<lparr>sched := remove_content content_id (sched y)\<rparr>"
| "step y (UpdatePlaylist content_ids) = y\<lparr>sched := update_playlist content_ids (sched y)\<rparr>"
| "step y (Elapse d) = (if 0 \<le> d then y\<lparr>clock := clock y + d\<rparr> else y)"
| "step y Resume = resume y"

definition run :: "event list \<Rightarrow> system" where
  "run evs = foldl step init_system evs"

text \<open>How long the loop still sleeps before it can select again.\<close>

definition remaining_wait :: "system \<Rightarrow> rat" where
  "remaining_wait y = max 0 (wake_at y - clock y)"

text \<open>What holds of the cursor between any two pieces of code.\<close>

definition cursor_ok :: "ContentScheduler \<Rightarrow> bool" where
  "cursor_ok s =
     (if current_playlist s = [] then current_index s = 0
      else 0 \<le> current_index s \<and> current_index s < int (length (current_playlist s)))"

text \<open>The invariant of the system: the cursor is in place and no read has failed.\<close>

definition loop_ok :: "system \<Rightarrow> bool" where
  "loop_ok y = (cursor_ok (sched y) \<and> pc y \<noteq> Crashed IndexError)"

subsection \<open>Selection by schedule, as the specification words it\<close>

text \<open>
  The selection that section 4.1 of the specification describes, in its words, to be
  compared with \<open>play_next_sequence\<close>. A Schedule is active when it is enabled and has no window or
  \<open>now\<close> is inside it (\<open>in_window\<close> decides the recurrence rules). Among the active
  ones the highest priority wins, and of equal priorities the one created last, which is
  the later one in the dict. Its content ids, resolved in the content map, are the
  authoritative sequence; with no active Schedule it is the default rotation.
\<close>

definition spec_active :: "(Schedule \<Rightarrow> 't \<Rightarrow> bool) \<Rightarrow> 't \<Rightarrow> Schedule \<Rightarrow> bool" where
  "spec_active in_window now sch =
     (s_enabled sch \<and>
      ((s_start_time sch = None \<and> s_end_time sch = None) \<or> in_window sch now))"

definition spec_active_schedules :: "(Schedule \<Rightarrow> 't \<Rightarrow> bool) \<Rightarrow> 't \<Rightarrow> ContentScheduler \<Rightarrow> Schedule list" where
  "spec_active_schedules in_window now s =
     filter (spec_active in_window now) (map snd (schedules s))"

fun spec_pick :: "Schedule list \<Rightarrow> Schedule option \<Rightarrow> Schedule option" where
  "spec_pick [] best = best"
| "spec_pick (sch # rest) None = spec_pick rest (Some sch)"
| "spec_pick (sch # rest) (Some b) =
     spec_pick rest (if s_priority b \<le> s_priority sch then Some sch else Some b)"

definition spec_authoritative :: "(Schedule \<Rightarrow> 't \<Rightarrow> bool) \<Rightarrow> 't \<Rightarrow> ContentScheduler \<Rightarrow> Content list" where
  "spec_authoritative in_window now s =
     (case spec_pick (spec_active_schedules in_window now s) None of
        Some sch \<Rightarrow> List.map_filter (\<lambda>cid. map_of (content_db s) cid) (s_content_ids sch)
      | None \<Rightarrow> play_next_sequence s)"

subsection \<open>Example data\<close>

definition content_a :: Content where
  "content_a = \<lparr>c_id = ''a'', c_name = ''a.png'', c_type = IMAGE,
     c_path = ''content/images/a.png'', c_duration = 10, c_created_at = 0, c_file_hash = None\<rparr>"

definition content_c :: Content where
  "content_c = \<lparr>c_id = ''c'', c_name = ''c.mp4'', c_type = VIDEO,
     c_path = ''content/videos/c.mp4'', c_duration = 5, c_created_at = 1, c_file_hash = None\<rparr>"

definition schedule_s :: Schedule where
  "schedule_s = \<lparr>s_id = ''s'', s_name = ''S'', s_content_ids = [''c''],
     s_start_time = None, s_end_time = None, s_enabled = True, s_priority = 10\<rparr>"

text \<open>A scheduler whose playlist was set to \<open>a\<close>, before and after \<open>a\<close> is deleted.\<close>

definition playing_a :: ContentScheduler where
  "playing_a = update_playlist [''a''] (add_content content_a init_scheduler)"

definition deleted_a :: ContentScheduler where
  "deleted_a = remove_content ''a'' playing_a"

text \<open>A renderer with a running player at full volume, where no call raises.\<close>

definition renderer_ok :: Renderer where
  "renderer_ok = \<lparr>raises = (\<lambda>call. False), is_playing = True, audio_get_volume = 100,
     play_returns = 0\<rparr>"

text \<open>
  A scheduler with two items in the catalog, the playlist set to \<open>a\<close>, and an enabled
  Schedule without a window that names \<open>c\<close>.
\<close>

definition with_schedule :: ContentScheduler where
  "with_schedule =
     (update_playlist [''a''] (add_content content_c (add_content content_a init_scheduler)))
       \<lparr>schedules := [(''s'', schedule_s)]\<rparr>"

text \<open>An upload, and a playlist update arriving while the first item is being loaded.\<close>

definition events_w :: "event list" where
  "events_w = [AddContent content_a, Resume, UpdatePlaylist [''a''], Resume]"




text \<open>The system after an upload of \<open>a\<close>, with the loop in the sleep of line 212.\<close>

definition showing_a :: system where
  "showing_a = run [AddContent content_a, Resume, Resume]"

text \<open>
  Two uploads, and a playlist update to \<open>c, a\<close> arriving while the first item is being
  loaded; the loop then sleeps the ten seconds of that item and is about to select again.
\<close>

definition events_race :: "event list" where
  "events_race = [AddContent content_a, AddContent content_c, Resume,
     UpdatePlaylist [''c'', ''a''], Resume, Elapse 10, Resume]"

text \<open>The system after an upload of \<open>a\<close>, with the loop awaiting \<open>play_content\<close>.\<close>

definition transition_a :: system where
  "transition_a = run [AddContent content_a, Resume]"

section \<open>Removal from the catalog\<close>

lemma remove_content_db: "content_db (remove_content cid s) = AList.delete cid (content_db s)"
  by (simp add: remove_content_def)

lemma remove_content_playlist: "current_playlist (remove_content cid s) = current_playlist s"
  by (simp add: remove_content_def)

lemma remove_content_index: "current_index (remove_content cid s) = current_index s"
  by (simp add: remove_content_def)

lemma remove_content_schedules: "schedules (remove_content cid s) = schedules s"
  by (simp add: remove_content_def)

lemma load_default_keep: "current_playlist s \<noteq> [] \<Longrightarrow> load_default s = s"
  by (simp add: load_default_def)

lemma select_after_remove:
  "current_playlist s \<noteq> [] \<Longrightarrow>
     play_next_select (remove_content cid s) = (remove_content cid s, snd (play_next_select s))"
  by (simp add: play_next_select_def load_default_keep remove_content_playlist
      remove_content_index Let_def split: sum.splits)

lemma advance_after_remove:
  "play_next_advance (remove_content cid s) = map_sum id (remove_content cid) (play_next_advance s)"
  by (simp add: play_next_advance_def remove_content_def)

lemma play_next_after_remove:
  assumes "current_playlist s \<noteq> []"
  shows "snd (play_next r (remove_content cid s, pm)) = snd (play_next r (s, pm))"
proof -
  have a: "play_next_select s = (s, snd (play_next_select s))"
    using assms by (simp add: play_next_select_def load_default_keep Let_def split: sum.splits)
  show ?thesis
    apply (simp add: play_next_def select_after_remove[OF assms] advance_after_remove)
    apply (subst (2) a)
    apply (auto split: sum.splits option.splits prod.splits
        simp: play_next_advance_def remove_content_def)
    done
qed

lemma playing_a_eval:
  "playing_a = \<lparr>current_playlist = [content_a], current_index = 0,
     content_db = [(''a'', content_a)], schedules = []\<rparr>"
  by (simp add: playing_a_def update_playlist_def add_content_def init_scheduler_def
      content_a_def List.map_filter_simps)

lemma deleted_a_eval:
  "deleted_a = \<lparr>current_playlist = [content_a], current_index = 0,
     content_db = [], schedules = []\<rparr>"
  by (simp add: deleted_a_def playing_a_eval remove_content_def)

lemma with_schedule_eval:
  "with_schedule = \<lparr>current_playlist = [content_a], current_index = 0,
     content_db = [(''a'', content_a), (''c'', content_c)], schedules = [(''s'', schedule_s)]\<rparr>"
  by (simp add: with_schedule_def add_content_def init_scheduler_def content_a_def content_c_def
     update_playlist_def)

text \<open>
  C10. \<open>remove_content\<close> changes the content map at the given id only, and nothing when the
  id is unknown. The playlist, the cursor and the schedules stay as they are, so with a
  playlist in place \<open>play_next\<close> selects and plays the same object as before the removal,
  with the same effects.
\<close>

theorem remove_content_frame:
  "current_playlist (remove_content cid s) = current_playlist s \<and>
   current_index (remove_content cid s) = current_index s \<and>
   schedules (remove_content cid s) = schedules s \<and>
   map_of (content_db (remove_content cid s)) = (map_of (content_db s))(cid := None) \<and>
   (cid \<notin> fst ` set (content_db s) \<longrightarrow> remove_content cid s = s) \<and>
   (current_playlist s \<noteq> [] \<longrightarrow>
      snd (play_next_select (remove_content cid s)) = snd (play_next_select s) \<and>
      snd (play_next r (remove_content cid s, pm)) = snd (play_next r (s, pm)))"
  using select_after_remove[of s cid] play_next_after_remove[of s r cid pm]
  by (simp add: remove_content_playlist remove_content_index remove_content_schedules
      remove_content_db AList.delete_conv')

theorem remove_content_frame_witness:
  "current_playlist playing_a \<noteq> [] \<and>
   snd (play_next_select playing_a) = Inr (Some content_a) \<and>
   snd (play_next_select (remove_content ''a'' playing_a)) = Inr (Some content_a) \<and>
   map_of (content_db (remove_content ''a'' playing_a)) ''a'' = None \<and>
   ''a'' \<notin> fst ` set (content_db deleted_a) \<and>
   remove_content ''a'' deleted_a = deleted_a"
proof -
  have sel: "snd (play_next_select playing_a) = Inr (Some content_a)"
    by (simp add: playing_a_eval play_next_select_def load_default_def py_getitem_def)
  have ne: "current_playlist playing_a \<noteq> []"
    by (simp add: playing_a_eval)
  have un: "''a'' \<notin> fst ` set (content_db deleted_a)"
    by (simp add: deleted_a_eval)
  from remove_content_frame[of "''a''" playing_a renderer_ok init_player] ne sel
  have "snd (play_next_select (remove_content ''a'' playing_a)) = Inr (Some content_a)"
    and "map_of (content_db (remove_content ''a'' playing_a)) ''a'' = None"
    by simp_all
  moreover from remove_content_frame[of "''a''" deleted_a renderer_ok init_player] un
  have "remove_content ''a'' deleted_a = deleted_a"
    by blast
  ultimately show ?thesis using sel ne un by simp
qed

section \<open>Notification of the observers\<close>

lemma send_loop_quiet:
  "send_loop f [] i cs acc =
     (cs, fst acc @ map (\<lambda>c. if f c then Dropped c else Delivered c) (drop i cs),
      snd acc @ filter f (drop i cs))"
proof (induction "length cs - i" arbitrary: i acc)
  case 0
  then show ?case by (simp add: send_loop.simps)
next
  case (Suc n)
  then have lt: "i < length cs" and n: "n = length cs - Suc i" by simp_all
  have d: "drop i cs = cs ! i # drop (Suc i) cs"
    using lt by (simp add: Cons_nth_drop_Suc)
  show ?case
    using lt Suc.hyps(1)[OF n, of "sent_to f (cs ! i) acc"]
    by (subst send_loop.simps) (simp add: d sent_to_def)
qed

lemma remove_loop_filter:
  "\<forall>x\<in>set pre. \<not> f x \<Longrightarrow>
     remove_loop (filter f cs) (pre @ cs) = Inr (pre @ filter (\<lambda>c. \<not> f c) cs)"
proof (induction cs arbitrary: pre)
  case Nil
  then show ?case by simp
next
  case (Cons c cs)
  show ?case
  proof (cases "f c")
    case True
    with Cons.prems have "c \<notin> set pre" by auto
    then have "remove1 c (pre @ c # cs) = pre @ cs"
      by (simp add: remove1_append)
    with True Cons.IH[OF Cons.prems] show ?thesis
      by (simp add: py_remove_def)
  next
    case False
    with Cons.prems have "\<forall>x\<in>set (pre @ [c]). \<not> f x" by auto
    from Cons.IH[OF this] False show ?thesis by simp
  qed
qed

text \<open>
  When no client connects or disconnects while \<open>notify_clients\<close> is suspended, every
  client is tried once, in the order of the list, each with its own outcome, and the list
  is left with the clients whose send went through.
\<close>

lemma notify_clients_quiet:
  "notify_clients send_fails [] clients =
     (map (\<lambda>c. if send_fails c then Dropped c else Delivered c) clients,
      Inr (filter (\<lambda>c. \<not> send_fails c) clients))"
  using remove_loop_filter[of "[]" send_fails clients]
  by (simp add: notify_clients_def send_loop_quiet)

text \<open>
  C8. Three clients are subscribed. The connection of client 1 drops while its send is
  awaited: the send raises, and the endpoint of client 1 takes it out of the list. The loop
  goes on at index 1 of the shortened list, which is client 3, so client 2, whose send would
  go through, is never tried; and the second loop raises \<open>ValueError\<close> for client 1, which
  is no longer in the list.
\<close>

theorem notify_clients_skips_and_raises:
  "notify_clients (\<lambda>c. c = (1::nat)) [[Disconnect 1]] [1, 2, 3] =
     ([Dropped 1, Delivered 3], Inl ValueError) \<and>
   notify_clients (\<lambda>c. c = (1::nat)) [] [1, 2, 3] =
     ([Dropped 1, Delivered 2, Delivered 3], Inr [2, 3])"
  by (simp add: notify_clients_def send_loop.simps sent_to_def py_remove_def)

section \<open>The fades\<close>

lemma fade_out_final_nonneg: "0 \<le> v \<Longrightarrow> fade_out_final v = v div 20"
  by (simp add: fade_out_final_def fade_out_levels_def py_int_truediv_def upto.simps)

text \<open>
  C6. The loop of \<open>_fade_out\<close> runs \<open>i\<close> from 20 down to 1 and stops before 0: its last
  call sets a twentieth of the starting level. From the level 100, at which \<open>_fade_in\<close>
  leaves the player, the fade-out ends at 5 and not at 0; \<open>_fade_in\<close> does reach its
  target.
\<close>

theorem fade_out_stops_above_zero:
  "fade_out_levels 100 =
     [100, 95, 90, 85, 80, 75, 70, 65, 60, 55, 50, 45, 40, 35, 30, 25, 20, 15, 10, 5] \<and>
   fade_out_final 100 = 5 \<and> last fade_in_levels = 100"
  by (simp add: fade_out_final_def fade_out_levels_def fade_in_levels_def py_int_truediv_def
      upto.simps)

section \<open>The cursor\<close>

lemma cursor_ok_init: "cursor_ok init_scheduler"
  by (simp add: cursor_ok_def init_scheduler_def)

lemma cursor_ok_add: "cursor_ok s \<Longrightarrow> cursor_ok (add_content c s)"
  by (simp add: cursor_ok_def add_content_def)

lemma cursor_ok_remove: "cursor_ok s \<Longrightarrow> cursor_ok (remove_content cid s)"
  by (simp add: cursor_ok_def remove_content_def)

lemma cursor_ok_update: "cursor_ok (update_playlist ids s)"
  by (simp add: cursor_ok_def update_playlist_def)

lemma cursor_ok_load: "cursor_ok s \<Longrightarrow> cursor_ok (load_default s)"
  by (auto simp: cursor_ok_def load_default_def)

lemma select_fst: "fst (play_next_select s) = load_default s"
  by (simp add: play_next_select_def Let_def split: sum.splits)

lemma select_in_bounds:
  assumes "cursor_ok s"
  shows "snd (play_next_select s) =
     (if current_playlist (load_default s) = [] then Inr None
      else Inr (Some (current_playlist (load_default s) ! nat (current_index (load_default s)))))"
  using cursor_ok_load[OF assms]
  by (simp add: play_next_select_def Let_def py_getitem_def cursor_ok_def)

lemma select_known:
  assumes "current_playlist s \<noteq> []" "0 \<le> current_index s"
    "current_index s < int (length (current_playlist s))"
  shows "play_next_select s = (s, Inr (Some (current_playlist s ! nat (current_index s))))"
  using assms by (simp add: play_next_select_def load_default_keep py_getitem_def)

lemma play_next_known:
  assumes "current_playlist s \<noteq> []" "0 \<le> current_index s"
    "current_index s < int (length (current_playlist s))"
  shows "play_next r (s, pm) =
     ((s\<lparr>current_index := (current_index s + 1) mod int (length (current_playlist s))\<rparr>,
       fst (play_content r (current_playlist s ! nat (current_index s)) pm)),
      snd (play_content r (current_playlist s ! nat (current_index s)) pm)
        @ [Sleep (of_int (c_duration (current_playlist s ! nat (current_index s)))), CreateTask],
      None)"
  using assms(1)
  by (simp add: play_next_def select_known[OF assms] play_next_advance_def split: prod.splits)

lemma select_default:
  assumes "cursor_ok s" "current_playlist s = []" "content_db s \<noteq> []"
  shows "play_next_select s =
     (s\<lparr>current_playlist := map snd (content_db s)\<rparr>, Inr (Some (snd (hd (content_db s)))))"
  using assms
  by (simp add: play_next_select_def load_default_def py_getitem_def cursor_ok_def hd_conv_nth)

subsection \<open>The loop among the handlers\<close>

lemma loop_ok_resume:
  assumes "loop_ok y"
  shows "loop_ok (resume y)"
proof (cases "pc y")
  case Ready
  obtain s1 res where sel: "play_next_select (sched y) = (s1, res)" by force
  from assms have ok: "cursor_ok (sched y)" by (simp add: loop_ok_def)
  have s1: "s1 = load_default (sched y)" using select_fst[of "sched y"] sel by simp
  have res: "res = Inr None \<or> (\<exists>c. res = Inr (Some c))"
    using select_in_bounds[OF ok] sel by (auto split: if_splits)
  from res show ?thesis
    using Ready sel cursor_ok_load[OF ok] s1
    by (auto simp: resume_def loop_ok_def)
next
  case Backoff
  with assms show ?thesis by (simp add: resume_def loop_ok_def)
next
  case (Transition c)
  with assms show ?thesis
    by (auto simp: resume_def loop_ok_def play_next_advance_def cursor_ok_def split: sum.splits)
next
  case (Showing c)
  with assms show ?thesis by (simp add: resume_def loop_ok_def)
next
  case (Crashed e)
  with assms show ?thesis by (simp add: resume_def)
qed

lemma loop_ok_step: "loop_ok y \<Longrightarrow> loop_ok (step y e)"
proof (cases e)
  case Resume
  assume "loop_ok y"
  with Resume show ?thesis by (simp add: loop_ok_resume)
qed (simp_all add: loop_ok_def cursor_ok_add cursor_ok_remove cursor_ok_update)

lemma loop_ok_run: "loop_ok (run evs)"
proof (induction evs rule: rev_induct)
  case Nil
  show ?case by (simp add: run_def loop_ok_def init_system_def cursor_ok_init)
next
  case (snoc e evs)
  then show ?case by (simp add: run_def loop_ok_step)
qed

lemma run_events_w:
  "run events_w = \<lparr>sched = \<lparr>current_playlist = [content_a], current_index = 0,
       content_db = [(''a'', content_a)], schedules = []\<rparr>,
     pc = Showing content_a, clock = 0, wake_at = 10\<rparr>"
  by (simp add: run_def events_w_def init_system_def init_scheduler_def add_content_def
      resume_def play_next_select_def load_default_def py_getitem_def update_playlist_def
      List.map_filter_simps play_next_advance_def content_a_def)

text \<open>
  What does end the loop is line 209: a playlist update that resolves no id, arriving while
  \<open>play_content\<close> is awaited, leaves an empty playlist, and the modulo raises.
\<close>

lemma update_during_transition_crashes:
  "pc (run [AddContent content_a, Resume, UpdatePlaylist [''ghost''], Resume]) =
     Crashed ZeroDivisionError"
  by (simp add: run_def init_system_def init_scheduler_def add_content_def
      resume_def play_next_select_def load_default_def py_getitem_def update_playlist_def
      play_next_advance_def content_a_def)

text \<open>
  C9. After any sequence of uploads, deletions, playlist updates, elapsed time and steps of
  the loop, taken from the start of the program, the read of line 203 is in bounds: either
  the playlist is empty after the default was loaded, and nothing is read, or the playlist is
  not empty and the cursor lies between 0 and its length. The loop never ends with an
  \<open>IndexError\<close>.
\<close>

theorem cursor_read_in_bounds:
  "pc (run evs) \<noteq> Crashed IndexError \<and>
   (case play_next_select (sched (run evs)) of
      (s1, res) \<Rightarrow>
        (res = Inr None \<and> current_playlist s1 = []) \<or>
        (current_playlist s1 \<noteq> [] \<and> 0 \<le> current_index s1 \<and>
         current_index s1 < int (length (current_playlist s1)) \<and>
         res = Inr (Some (current_playlist s1 ! nat (current_index s1)))))"
proof -
  have ok: "cursor_ok (sched (run evs))" and nc: "pc (run evs) \<noteq> Crashed IndexError"
    using loop_ok_run[of evs] by (simp_all add: loop_ok_def)
  obtain s1 res where sel: "play_next_select (sched (run evs)) = (s1, res)" by force
  have s1: "s1 = load_default (sched (run evs))"
    using select_fst[of "sched (run evs)"] sel by simp
  have "cursor_ok s1" using cursor_ok_load[OF ok] s1 by simp
  moreover have "res = (if current_playlist s1 = [] then Inr None
      else Inr (Some (current_playlist s1 ! nat (current_index s1))))"
    using select_in_bounds[OF ok] sel s1 by simp
  ultimately show ?thesis using nc sel by (auto simp: cursor_ok_def)
qed

theorem cursor_read_in_bounds_witness:
  "pc (run events_w) = Showing content_a \<and>
   play_next_select (sched (run events_w)) = (sched (run events_w), Inr (Some content_a)) \<and>
   current_index (sched (run events_w)) = 0 \<and>
   length (current_playlist (sched (run events_w))) = 1"
  using cursor_read_in_bounds[of events_w]
  by (simp add: run_events_w play_next_select_def load_default_def py_getitem_def)

text \<open>
  What holds of the cursor when nothing runs between \<open>update_playlist\<close> and the selection:
  \<open>update_playlist\<close> puts the cursor on 0 and the selection that follows reads the first
  entry of the new playlist; the default playlist is loaded with the cursor at 0; on a
  playlist that stays as it is, \<open>play_next\<close> selects the entry at the cursor and moves the
  cursor on by one, modulo the length.
\<close>

lemma cursor_reset_and_advance:
  "current_index (update_playlist ids s) = 0 \<and>
   (current_playlist (update_playlist ids s) \<noteq> [] \<longrightarrow>
      snd (play_next_select (update_playlist ids s)) =
        Inr (Some (hd (current_playlist (update_playlist ids s))))) \<and>
   (cursor_ok s \<and> current_playlist s = [] \<and> content_db s \<noteq> [] \<longrightarrow>
      play_next_select s =
        (s\<lparr>current_playlist := map snd (content_db s)\<rparr>, Inr (Some (snd (hd (content_db s)))))) \<and>
   (current_playlist s \<noteq> [] \<and> 0 \<le> current_index s \<and>
    current_index s < int (length (current_playlist s)) \<longrightarrow>
      snd (play_next_select s) = Inr (Some (current_playlist s ! nat (current_index s))) \<and>
      fst (fst (play_next r (s, pm))) =
        s\<lparr>current_index := (current_index s + 1) mod int (length (current_playlist s))\<rparr> \<and>
      snd (snd (play_next r (s, pm))) = None)"
proof -
  have a: "current_index (update_playlist ids s) = 0"
    by (simp add: update_playlist_def)
  have b: "snd (play_next_select (update_playlist ids s)) =
        Inr (Some (hd (current_playlist (update_playlist ids s))))"
    if "current_playlist (update_playlist ids s) \<noteq> []"
    using that select_known[of "update_playlist ids s"] a by (simp add: hd_conv_nth)
  show ?thesis
    using a b select_default[of s] select_known[of s] play_next_known[of s r pm]
    by simp
qed

lemma run_events_race:
  "run events_race = \<lparr>sched = \<lparr>current_playlist = [content_c, content_a], current_index = 1,
       content_db = [(''a'', content_a), (''c'', content_c)], schedules = []\<rparr>,
     pc = Ready, clock = 10, wake_at = 10\<rparr>"
  by (simp add: run_def events_race_def init_system_def init_scheduler_def add_content_def
      resume_def play_next_select_def load_default_def py_getitem_def update_playlist_def
      play_next_advance_def content_a_def content_c_def)

text \<open>
  C4. The playlist is replaced by \<open>c, a\<close> while \<open>play_content\<close> is awaited for \<open>a\<close>.
  \<open>update_playlist\<close> puts the cursor on 0, and line 209, which runs next, moves it to 1:
  when the loop selects again the cursor is not at the first element of the new sequence,
  and the selection is \<open>a\<close>, the second one; \<open>c\<close> is passed over.
\<close>

theorem update_during_transition_skips_first:
  "current_playlist (sched (run events_race)) = [content_c, content_a] \<and>
   current_index (sched (run events_race)) = 1 \<and>
   pc (run events_race) = Ready \<and>
   snd (play_next_select (sched (run events_race))) = Inr (Some content_a) \<and>
   content_a \<noteq> content_c"
  by (simp add: run_events_race play_next_select_def load_default_def py_getitem_def)
    (simp add: content_a_def content_c_def)

section \<open>The empty catalog\<close>

lemma play_next_idle:
  assumes "content_db s = []" "current_playlist s = []"
  shows "play_next r (s, pm) = ((s, pm), [Sleep 5, CreateTask], None)"
proof -
  have "load_default s = s" using assms by (simp add: load_default_def)
  then show ?thesis using assms by (simp add: play_next_def play_next_select_def)
qed

lemma resume_idle:
  assumes "pc y = Ready" "content_db (sched y) = []" "current_playlist (sched y) = []"
  shows "resume y = y\<lparr>pc := Backoff, wake_at := clock y + 5\<rparr>"
proof -
  have "load_default (sched y) = sched y" using assms by (simp add: load_default_def)
  then show ?thesis using assms by (simp add: resume_def play_next_select_def)
qed

text \<open>
  C5, as the claim states it, fails: an empty content map is not enough. After an upload of
  \<open>a\<close>, a playlist update to \<open>a\<close> and the deletion of \<open>a\<close>, the content map is empty,
  and the loop selects the deleted item from the playlist and goes on to play it, with no
  sentinel and no sleep of five seconds.
\<close>

theorem empty_catalog_stale_counterexample:
  "content_db deleted_a = [] \<and>
   snd (play_next_select deleted_a) = Inr (Some content_a) \<and>
   sched (run [AddContent content_a, UpdatePlaylist [''a''], RemoveContent ''a'']) = deleted_a \<and>
   pc (run [AddContent content_a, UpdatePlaylist [''a''], RemoveContent ''a'', Resume]) =
     Transition content_a"
proof -
  have s: "sched (run [AddContent content_a, UpdatePlaylist [''a''], RemoveContent ''a'']) = deleted_a"
    by (simp add: run_def init_system_def deleted_a_def playing_a_def)
  have r: "run [AddContent content_a, UpdatePlaylist [''a''], RemoveContent ''a'', Resume] =
     step (run [AddContent content_a, UpdatePlaylist [''a''], RemoveContent ''a'']) Resume"
    by (simp add: run_def)
  have p: "pc (run [AddContent content_a, UpdatePlaylist [''a''], RemoveContent ''a'']) = Ready"
    by (simp add: run_def init_system_def)
  have sel: "play_next_select deleted_a = (deleted_a, Inr (Some content_a))"
    by (simp add: deleted_a_eval play_next_select_def load_default_def py_getitem_def)
  have "pc (run [AddContent content_a, UpdatePlaylist [''a''], RemoveContent ''a'', Resume]) =
     Transition content_a"
    by (simp add: r resume_def p s sel)
  then show ?thesis using s sel by (simp add: deleted_a_eval)
qed

text \<open>
  C5, amended. When a run of \<open>play_next\<close> starts with the content map and the current
  playlist both empty, it selects nothing, raises nothing, sleeps five seconds and starts
  the next run, leaving the state as it was; so a chain of any length \<open>n\<close> of such runs ends
  without an error, each retry after a sleep of five seconds. Among the handlers, the loop
  goes from the start of the run into that sleep, is still in it while less than five
  seconds have passed, and is back at the start of a run, the state unchanged, once five
  seconds have passed.
\<close>

theorem empty_catalog_backoff:
  "content_db s = [] \<and> current_playlist s = [] \<longrightarrow>
     snd (play_next_select s) = Inr None \<and>
     play_next r (s, pm) = ((s, pm), [Sleep 5, CreateTask], None) \<and>
     drive n r (s, pm) = ((s, pm), concat (replicate n [Sleep 5, CreateTask]), None) \<and>
     (pc y = Ready \<and> sched y = s \<and> 0 \<le> d \<longrightarrow>
        step y Resume = y\<lparr>pc := Backoff, wake_at := clock y + 5\<rparr> \<and>
        (d < 5 \<longrightarrow> pc (foldl step y [Resume, Elapse d, Resume]) = Backoff) \<and>
        (5 \<le> d \<longrightarrow> foldl step y [Resume, Elapse d, Resume] =
           y\<lparr>pc := Ready, clock := clock y + d, wake_at := clock y + 5\<rparr>))"
proof (intro impI conjI)
  assume h: "content_db s = [] \<and> current_playlist s = []"
  then show "snd (play_next_select s) = Inr None"
    by (simp add: play_next_select_def load_default_def)
  from h show one: "play_next r (s, pm) = ((s, pm), [Sleep 5, CreateTask], None)"
    by (simp add: play_next_idle)
  show "drive n r (s, pm) = ((s, pm), concat (replicate n [Sleep 5, CreateTask]), None)"
    by (induction n) (simp_all add: one)
  assume y: "pc y = Ready \<and> sched y = s \<and> 0 \<le> d"
  with h have r: "resume y = y\<lparr>pc := Backoff, wake_at := clock y + 5\<rparr>"
    by (simp add: resume_idle)
  then show "step y Resume = y\<lparr>pc := Backoff, wake_at := clock y + 5\<rparr>" by simp
  show "pc (foldl step y [Resume, Elapse d, Resume]) = Backoff" if "d < 5"
    using y r that by (simp add: resume_def)
  show "foldl step y [Resume, Elapse d, Resume] =
           y\<lparr>pc := Ready, clock := clock y + d, wake_at := clock y + 5\<rparr>" if "5 \<le> d"
    using y r that by (simp add: resume_def)
qed

theorem empty_catalog_backoff_witness:
  "content_db init_scheduler = [] \<and> current_playlist init_scheduler = [] \<and>
   pc init_system = Ready \<and> sched init_system = init_scheduler \<and>
   drive 3 renderer_ok (init_scheduler, init_player) =
     ((init_scheduler, init_player),
      [Sleep 5, CreateTask, Sleep 5, CreateTask, Sleep 5, CreateTask], None) \<and>
   pc (foldl step init_system [Resume, Elapse 4, Resume]) = Backoff \<and>
   pc (foldl step init_system [Resume, Elapse 5, Resume]) = Ready"
proof -
  have h: "content_db init_scheduler = [] \<and> current_playlist init_scheduler = []"
    by (simp add: init_scheduler_def)
  have y: "pc init_system = Ready \<and> sched init_system = init_scheduler"
    by (simp add: init_system_def)
  note a = empty_catalog_backoff[where s = init_scheduler and r = renderer_ok and pm = init_player
      and n = 3 and y = init_system and d = 4]
  note b = empty_catalog_backoff[where s = init_scheduler and r = renderer_ok and pm = init_player
      and n = 3 and y = init_system and d = 5]
  have "drive 3 renderer_ok (init_scheduler, init_player) =
     ((init_scheduler, init_player),
      [Sleep 5, CreateTask, Sleep 5, CreateTask, Sleep 5, CreateTask], None)"
    using a h by (simp add: numeral_3_eq_3)
  moreover have "pc (foldl step init_system [Resume, Elapse 4, Resume]) = Backoff"
    using a h y by (simp del: foldl_Cons)
  moreover have "pc (foldl step init_system [Resume, Elapse 5, Resume]) = Ready"
    using b h y by (simp del: foldl_Cons)
  ultimately show ?thesis using h y by simp
qed

section \<open>Schedules\<close>

lemma load_default_schedules:
  "load_default (s\<lparr>schedules := sch\<rparr>) = (load_default s)\<lparr>schedules := sch\<rparr>"
  by (simp add: load_default_def)

text \<open>
  C1, as the claim states it, fails: with the playlist set to \<open>a\<close> and an enabled Schedule
  of priority 10 without a window that names \<open>c\<close>, the sequence of the specification is
  \<open>c\<close> alone, and \<open>play_next\<close> reads from the playlist and selects \<open>a\<close>.
\<close>

theorem schedule_ignored_counterexample:
  "spec_active_schedules (\<lambda>sch now. False) (0::nat) with_schedule = [schedule_s] \<and>
   spec_authoritative (\<lambda>sch now. False) (0::nat) with_schedule = [content_c] \<and>
   play_next_sequence with_schedule = [content_a] \<and>
   snd (play_next_select with_schedule) = Inr (Some content_a) \<and>
   play_next_sequence with_schedule \<noteq> spec_authoritative (\<lambda>sch now. False) (0::nat) with_schedule"
  by (simp add: with_schedule_eval spec_active_schedules_def spec_active_def schedule_s_def
      spec_authoritative_def play_next_sequence_def load_default_def
      play_next_select_def py_getitem_def content_a_def content_c_def)

text \<open>
  C1, amended. \<open>play_next\<close> never reads \<open>schedules\<close>: whatever Schedules are stored, active
  or not, the sequence it selects from is the current playlist, or every object of the
  content map in insertion order when the playlist is empty, and the selection, the effects
  and the outcome are the same.
\<close>

theorem selection_ignores_schedules:
  "play_next_sequence (s\<lparr>schedules := sch\<rparr>) = play_next_sequence s \<and>
   play_next_sequence s =
     (if current_playlist s = [] then map snd (content_db s) else current_playlist s) \<and>
   snd (play_next_select (s\<lparr>schedules := sch\<rparr>)) = snd (play_next_select s) \<and>
   snd (play_next r (s\<lparr>schedules := sch\<rparr>, pm)) = snd (play_next r (s, pm))"
  apply (intro conjI)
     apply (simp add: play_next_sequence_def load_default_schedules)
    apply (simp add: play_next_sequence_def load_default_def)
   apply (simp add: play_next_select_def load_default_schedules Let_def split: sum.splits)
  apply (simp add: play_next_def play_next_select_def load_default_schedules Let_def
      play_next_advance_def split: sum.splits option.splits prod.splits)
  done

theorem selection_ignores_schedules_witness:
  "snd (play_next_select with_schedule) = snd (play_next_select (with_schedule\<lparr>schedules := []\<rparr>)) \<and>
   play_next_sequence (with_schedule\<lparr>schedules := []\<rparr>) = [content_a]"
  using selection_ignores_schedules[where s = "with_schedule\<lparr>schedules := []\<rparr>"
      and sch = "[(''s'', schedule_s)]" and r = renderer_ok and pm = init_player]
  by (simp add: with_schedule_eval)

section \<open>Dangling ids\<close>











section \<open>A play that fails\<close>








section \<open>Deletion of the item on screen\<close>

lemma showing_a_eval:
  "showing_a = \<lparr>sched = \<lparr>current_playlist = [content_a], current_index = 0,
       content_db = [(''a'', content_a)], schedules = []\<rparr>,
     pc = Showing content_a, clock = 0, wake_at = 10\<rparr>"
  by (simp add: showing_a_def run_def init_system_def init_scheduler_def add_content_def
      resume_def play_next_select_def load_default_def py_getitem_def
      play_next_advance_def content_a_def)

text \<open>
  C2, as the claim states it, fails: \<open>a\<close>, of ten seconds, is on screen and is deleted. The
  loop stays in its sleep with the ten seconds still to wait, a step of the loop changes
  nothing, and after nine seconds it is still asleep.
\<close>

theorem delete_does_not_preempt_counterexample:
  "pc showing_a = Showing content_a \<and> c_id content_a = ''a'' \<and>
   pc (step showing_a (RemoveContent ''a'')) = Showing content_a \<and>
   remaining_wait (step showing_a (RemoveContent ''a'')) = 10 \<and>
   \<not> remaining_wait (step showing_a (RemoveContent ''a'')) < 1 \<and>
   step (step showing_a (RemoveContent ''a'')) Resume = step showing_a (RemoveContent ''a'') \<and>
   pc (step (step (step showing_a (RemoveContent ''a'')) (Elapse 9)) Resume) = Showing content_a"
  by (simp add: showing_a_eval remaining_wait_def remove_content_def resume_def)
    (simp add: content_a_def)

lemma transition_a_eval:
  "transition_a = \<lparr>sched = \<lparr>current_playlist = [content_a], current_index = 0,
       content_db = [(''a'', content_a)], schedules = []\<rparr>,
     pc = Transition content_a, clock = 0, wake_at = 0\<rparr>"
  by (simp add: transition_a_def run_def init_system_def init_scheduler_def add_content_def
      resume_def play_next_select_def load_default_def py_getitem_def content_a_def)

text \<open>
  C2, amended. A deletion does not preempt the loop: it leaves the place of the loop, the
  clock and the wake-up time as they are. When \<open>play_content\<close> has returned for an item
  \<open>c\<close> and the playlist is not empty, so that line 209 does not raise, the loop goes into
  a sleep of the configured duration of \<open>c\<close>. Whatever is deleted
  during that sleep, after a time \<open>d1\<close>, the time left to sleep is the duration less
  \<open>d1\<close>; the loop is still asleep while less than the duration has passed since the sleep
  began, and it starts the next selection once the duration has passed.
\<close>

theorem delete_leaves_wait:
  "pc (step y (RemoveContent cid)) = pc y \<and>
   clock (step y (RemoveContent cid)) = clock y \<and>
   wake_at (step y (RemoveContent cid)) = wake_at y \<and>
   (pc y = Transition c \<and> current_playlist (sched y) \<noteq> [] \<and> 0 \<le> d1 \<and> 0 \<le> d2 \<longrightarrow>
      pc (step y Resume) = Showing c \<and>
      remaining_wait (step y Resume) = max 0 (of_int (c_duration c)) \<and>
      remaining_wait (foldl step y [Resume, Elapse d1, RemoveContent cid]) =
        max 0 (of_int (c_duration c) - d1) \<and>
      (d1 + d2 < of_int (c_duration c) \<longrightarrow>
         pc (foldl step y [Resume, Elapse d1, RemoveContent cid, Elapse d2, Resume]) = Showing c) \<and>
      (of_int (c_duration c) \<le> d1 + d2 \<longrightarrow>
         pc (foldl step y [Resume, Elapse d1, RemoveContent cid, Elapse d2, Resume]) = Ready))"
  by (auto simp: remaining_wait_def resume_def play_next_advance_def)

theorem delete_leaves_wait_witness:
  "pc transition_a = Transition content_a \<and> current_playlist (sched transition_a) \<noteq> [] \<and>
   c_duration content_a = 10 \<and>
   remaining_wait (foldl step transition_a [Resume, Elapse 3, RemoveContent ''a'']) = 7 \<and>
   pc (foldl step transition_a [Resume, Elapse 3, RemoveContent ''a'', Elapse 6, Resume]) =
     Showing content_a \<and>
   pc (foldl step transition_a [Resume, Elapse 3, RemoveContent ''a'', Elapse 7, Resume]) = Ready"
proof -
  have h: "pc transition_a = Transition content_a \<and> current_playlist (sched transition_a) \<noteq> []"
    by (simp add: transition_a_eval)
  have d: "c_duration content_a = 10" by (simp add: content_a_def)
  note a = delete_leaves_wait[where y = transition_a and c = content_a and cid = "''a''"
      and ?d1.0 = 3 and ?d2.0 = 6]
  note b = delete_leaves_wait[where y = transition_a and c = content_a and cid = "''a''"
      and ?d1.0 = 3 and ?d2.0 = 7]
  have "remaining_wait (foldl step transition_a [Resume, Elapse 3, RemoveContent ''a'']) = 7"
    using a h d by (simp del: foldl_Cons)
  moreover have "pc (foldl step transition_a [Resume, Elapse 3, RemoveContent ''a'', Elapse 6, Resume]) =
     Showing content_a"
    using a h d by (simp del: foldl_Cons)
  moreover have "pc (foldl step transition_a [Resume, Elapse 3, RemoveContent ''a'', Elapse 7, Resume]) = Ready"
    using b h d by (simp del: foldl_Cons)
  ultimately show ?thesis using h d by simp
qed

end
